theory Spec2Isabelle
  imports Main
begin

section \<open>Python values, truthiness and exceptions\<close>

text \<open>
  The tree that \<^verbatim>\<open>xmltodict.parse\<close> returns is untyped: \<^verbatim>\<open>None\<close>, a string, a list or
  a dict with string keys. A dict is an association list in insertion order (iterating
  over a dict yields its keys in that order); a lookup takes the first binding of a key.
\<close>

datatype pyval =
    PNone
  | PStr string
  | PList "pyval list"
  | PDict "(string \<times> pyval) list"

text \<open>The exceptions that the modelled code raises or lets escape.\<close>

datatype pyerr =
    ParsingException string
  | ExpatError
  | KeyError string
  | TypeError
  | AttributeError
  | OSError
  | OtherError string

text \<open>Python's truth value of an object, as \<^verbatim>\<open>if not x\<close> and \<^verbatim>\<open>and\<close> test it.\<close>

fun truthy :: "pyval \<Rightarrow> bool" where
  "truthy PNone = False"
| "truthy (PStr s) = (s \<noteq> [])"
| "truthy (PList xs) = (xs \<noteq> [])"
| "truthy (PDict kvs) = (kvs \<noteq> [])"

text \<open>\<^verbatim>\<open>d[k]\<close> with a string key: only a dict accepts it, and a missing key raises.\<close>

fun subscript :: "pyval \<Rightarrow> string \<Rightarrow> pyerr + pyval" where
  "subscript (PDict kvs) k = (case map_of kvs k of None \<Rightarrow> Inl (KeyError k) | Some v \<Rightarrow> Inr v)"
| "subscript PNone k = Inl TypeError"
| "subscript (PStr s) k = Inl TypeError"
| "subscript (PList xs) k = Inl TypeError"

text \<open>\<^verbatim>\<open>d.get(k, default)\<close>: only a dict has the method.\<close>

fun dict_get :: "pyval \<Rightarrow> string \<Rightarrow> pyval \<Rightarrow> pyerr + pyval" where
  "dict_get (PDict kvs) k dflt = (case map_of kvs k of None \<Rightarrow> Inr dflt | Some v \<Rightarrow> Inr v)"
| "dict_get PNone k dflt = Inl AttributeError"
| "dict_get (PStr s) k dflt = Inl AttributeError"
| "dict_get (PList xs) k dflt = Inl AttributeError"

text \<open>\<^verbatim>\<open>s.startswith(p)\<close>: only a string has the method.\<close>

fun startswith :: "pyval \<Rightarrow> string \<Rightarrow> pyerr + bool" where
  "startswith (PStr s) p = Inr (take (length p) s = p)"
| "startswith PNone p = Inl AttributeError"
| "startswith (PList xs) p = Inl AttributeError"
| "startswith (PDict kvs) p = Inl AttributeError"

text \<open>
  \<^verbatim>\<open>for x in v\<close>: a list yields its elements, a dict its keys, a string its characters
  (each a one-character string); \<^verbatim>\<open>None\<close> is not iterable.
\<close>

fun py_iter :: "pyval \<Rightarrow> pyerr + pyval list" where
  "py_iter (PList xs) = Inr xs"
| "py_iter (PDict kvs) = Inr (map (\<lambda>kv. PStr (fst kv)) kvs)"
| "py_iter (PStr s) = Inr (map (\<lambda>c. PStr [c]) s)"
| "py_iter PNone = Inl TypeError"

section \<open>The message consumer\<close>

text \<open>
  Modelled from the spec: \<^verbatim>\<open>rss_parse.utils.messaging_utils\<close> is not among the sources.
  A consumer is an object with \<^verbatim>\<open>add_message(text)\<close>; \<^verbatim>\<open>MESSAGE_CONSUMER_NOOP\<close> drops the
  text. \<open>Collector\<close> is a consumer that records what it receives, \<open>PyNone\<close> is Python's
  \<^verbatim>\<open>None\<close> standing where a consumer is expected: it has no \<^verbatim>\<open>add_message\<close>.
\<close>

datatype consumer =
    PyNone
  | MESSAGE_CONSUMER_NOOP
  | Collector "string list"

fun add_message :: "consumer \<Rightarrow> string \<Rightarrow> pyerr + consumer" where
  "add_message PyNone m = Inl AttributeError"
| "add_message MESSAGE_CONSUMER_NOOP m = Inr MESSAGE_CONSUMER_NOOP"
| "add_message (Collector log) m = Inr (Collector (log @ [m]))"

section \<open>Feed, items and the keys of the decoded tree\<close>

text \<open>
  Modelled from the spec: \<^verbatim>\<open>rss_parse.parse.rss_feed\<close> is not among the sources. An item
  has the five fields the constructor call passes, in that order, and \<open>source\<close>, which
  only the URL parser sets. A publication date is a timestamp or \<^verbatim>\<open>None\<close>; a Python
  \<^verbatim>\<open>datetime\<close> is always true.
\<close>

datatype datetime = Datetime int

record RssItem =
  title :: pyval
  description :: pyval
  publication_date :: "datetime option"
  link :: pyval
  image_url :: pyval
  source :: pyval

datatype RssFeed = RssFeed (rss_items: "RssItem list")

text \<open>
  Modelled from the spec: \<^verbatim>\<open>rss_parse.parse.rss_keys\<close> is not among the sources. The keys
  are those of an RSS 2.0 document decoded by xmltodict (root, channel, repeated item
  elements, attributes prefixed with \<^verbatim>\<open>@\<close>).
\<close>

definition RSS_ROOT :: string where "RSS_ROOT = ''rss''"
definition RSS_CHANNEL :: string where "RSS_CHANNEL = ''channel''"
definition RSS_ITEMS :: string where "RSS_ITEMS = ''item''"
definition RSS_ITEM_TITLE :: string where "RSS_ITEM_TITLE = ''title''"
definition RSS_ITEM_DESCRIPTION :: string where "RSS_ITEM_DESCRIPTION = ''description''"
definition RSS_ITEM_PUB_DATE :: string where "RSS_ITEM_PUB_DATE = ''pubDate''"
definition RSS_ITEM_LINK :: string where "RSS_ITEM_LINK = ''link''"
definition RSS_IMAGE_ROOT :: string where "RSS_IMAGE_ROOT = ''image''"
definition RSS_IMAGE_ROOT_MEDIA_CONTENT :: string where
  "RSS_IMAGE_ROOT_MEDIA_CONTENT = ''media:content''"
definition RSS_IMAGE_ROOT_MEDIA_THUMBNAIL :: string where
  "RSS_IMAGE_ROOT_MEDIA_THUMBNAIL = ''media:thumbnail''"
definition RSS_IMAGE_ROOT_ENCLOSURE :: string where
  "RSS_IMAGE_ROOT_ENCLOSURE = ''enclosure''"
definition RSS_IMAGE_URL_ATTR :: string where "RSS_IMAGE_URL_ATTR = ''@url''"

section \<open>The collaborators of the parsers\<close>

text \<open>
  What \<^verbatim>\<open>requests.get\<close> does at the one call the URL parser makes: it raises one of the
  three exceptions the first handler names, raises anything else (a connection error),
  or returns a response with a status code and a body.
\<close>

datatype http_outcome =
    RaisedInvalidSchema
  | RaisedInvalidURL
  | RaisedMissingSchema
  | RaisedOther
  | Response int string

text \<open>A path of the file system: a readable text file, or a directory.\<close>

datatype fs_node = TextFile string | Directory

text \<open>
  The functions the parsers call that are not among the sources are parameters: the XML
  decoder of the xmltodict library (it raises \<open>ExpatError\<close> on a document that is not
  XML), \<^verbatim>\<open>sanitize_text\<close> and \<^verbatim>\<open>to_date\<close> of \<^verbatim>\<open>parsing_utils\<close>, the HTTP client, the file
  system and the JSON mapper. Each may raise.
\<close>

record world =
  xmltodict_parse :: "string \<Rightarrow> pyerr + pyval"
  sanitize_text :: "pyval \<Rightarrow> pyerr + pyval"
  to_date :: "pyval \<Rightarrow> pyerr + datetime option"
  requests_get :: "string \<Rightarrow> http_outcome"
  files :: "string \<Rightarrow> fs_node option"
  from_json :: "string \<Rightarrow> pyerr + RssFeed"

section \<open>The parsers\<close>

text \<open>
  \<^verbatim>\<open>RssParser.__init__(self, mc=MESSAGE_CONSUMER_NOOP)\<close>. The argument is optional:
  \<open>None\<close> is the call that leaves it out.
\<close>

record RssParser =
  mc :: consumer

definition RssParser_init :: "consumer option \<Rightarrow> RssParser" where
  "RssParser_init mc_arg =
     \<lparr> mc = (case mc_arg of None \<Rightarrow> MESSAGE_CONSUMER_NOOP | Some m \<Rightarrow> m) \<rparr>"

text \<open>
  The three subclasses declare \<^verbatim>\<open>mc=None\<close>, pass the value on to the base class (so
  that the base class's default never applies) and assign \<^verbatim>\<open>self._mc = mc\<close> again.
\<close>

record RssJsonParser = RssParser +
  file_name :: string

definition RssJsonParser_init :: "string \<Rightarrow> consumer option \<Rightarrow> RssJsonParser" where
  "RssJsonParser_init fname mc_arg =
     (let m = (case mc_arg of None \<Rightarrow> PyNone | Some c \<Rightarrow> c);
          base = RssParser_init (Some m)
      in \<lparr> mc = mc (base\<lparr>mc := m\<rparr>), file_name = fname \<rparr>)"

record RssXmlParser = RssParser +
  xml_feed :: string

definition RssXmlParser_init :: "string \<Rightarrow> consumer option \<Rightarrow> RssXmlParser" where
  "RssXmlParser_init xml mc_arg =
     (let m = (case mc_arg of None \<Rightarrow> PyNone | Some c \<Rightarrow> c);
          base = RssParser_init (Some m)
      in \<lparr> mc = mc (base\<lparr>mc := m\<rparr>), xml_feed = xml \<rparr>)"

record RssUrlParser = RssParser +
  url_source :: string

definition RssUrlParser_init :: "string \<Rightarrow> consumer option \<Rightarrow> RssUrlParser" where
  "RssUrlParser_init src mc_arg =
     (let m = (case mc_arg of None \<Rightarrow> PyNone | Some c \<Rightarrow> c);
          base = RssParser_init (Some m)
      in \<lparr> mc = mc (base\<lparr>mc := m\<rparr>), url_source = src \<rparr>)"

subsection \<open>RssJsonParser.parse\<close>

definition RssJsonParser_parse :: "world \<Rightarrow> RssJsonParser \<Rightarrow> pyerr + RssFeed" where
  "RssJsonParser_parse w self =
     (case files w (file_name self) of
        None \<Rightarrow> Inr (RssFeed [])
      | Some Directory \<Rightarrow> Inl OSError
      | Some (TextFile rss_json) \<Rightarrow> from_json w rss_json)"

subsection \<open>RssXmlParser: image, item, validation\<close>

definition parse_image :: "pyval \<Rightarrow> pyerr + pyval" where
  "parse_image rss_item_dict =
     (case dict_get rss_item_dict RSS_IMAGE_ROOT PNone of
        Inl e \<Rightarrow> Inl e
      | Inr image_url1 \<Rightarrow>
     (case (if \<not> truthy image_url1
            then (case dict_get rss_item_dict RSS_IMAGE_ROOT_MEDIA_CONTENT (PDict []) of
                    Inl e \<Rightarrow> Inl e
                  | Inr sub \<Rightarrow> dict_get sub RSS_IMAGE_URL_ATTR PNone)
            else Inr image_url1) of
        Inl e \<Rightarrow> Inl e
      | Inr image_url2 \<Rightarrow>
     (case (if \<not> truthy image_url2
            then (case dict_get rss_item_dict RSS_IMAGE_ROOT_MEDIA_THUMBNAIL (PDict []) of
                    Inl e \<Rightarrow> Inl e
                  | Inr sub \<Rightarrow> dict_get sub RSS_IMAGE_URL_ATTR PNone)
            else Inr image_url2) of
        Inl e \<Rightarrow> Inl e
      | Inr image_url3 \<Rightarrow>
        (if \<not> truthy image_url3
         then (case dict_get rss_item_dict RSS_IMAGE_ROOT_ENCLOSURE (PDict []) of
                 Inl e \<Rightarrow> Inl e
               | Inr enclosure \<Rightarrow>
                   (case dict_get enclosure ''@type'' (PStr '''') of
                      Inl e \<Rightarrow> Inl e
                    | Inr ty \<Rightarrow>
                        (case startswith ty ''image/'' of
                           Inl e \<Rightarrow> Inl e
                         | Inr True \<Rightarrow> dict_get enclosure RSS_IMAGE_URL_ATTR PNone
                         | Inr False \<Rightarrow> Inr image_url3)))
         else Inr image_url3))))"

definition parse_item :: "world \<Rightarrow> pyval \<Rightarrow> pyerr + RssItem" where
  "parse_item w rss_item_dict =
     (case dict_get rss_item_dict RSS_ITEM_TITLE PNone of Inl e \<Rightarrow> Inl e | Inr raw_title \<Rightarrow>
     (case sanitize_text w raw_title of Inl e \<Rightarrow> Inl e | Inr title_v \<Rightarrow>
     (case dict_get rss_item_dict RSS_ITEM_DESCRIPTION PNone of Inl e \<Rightarrow> Inl e | Inr description_v \<Rightarrow>
     (case dict_get rss_item_dict RSS_ITEM_PUB_DATE PNone of Inl e \<Rightarrow> Inl e | Inr raw_date \<Rightarrow>
     (case to_date w raw_date of Inl e \<Rightarrow> Inl e | Inr publication_date_v \<Rightarrow>
     (case dict_get rss_item_dict RSS_ITEM_LINK PNone of Inl e \<Rightarrow> Inl e | Inr link_v \<Rightarrow>
     (case parse_image rss_item_dict of Inl e \<Rightarrow> Inl e | Inr image_url_v \<Rightarrow>
        Inr \<lparr> title = title_v, description = description_v,
              publication_date = publication_date_v, link = link_v,
              image_url = image_url_v, source = PNone \<rparr>)))))))"

text \<open>
  \<^verbatim>\<open>item.title and item.publication_date and item.link\<close>, read as a condition: the
  value of the chain is true exactly when all three operands are.
\<close>

definition validate_correctness :: "RssItem \<Rightarrow> bool" where
  "validate_correctness item =
     (truthy (title item) \<and> publication_date item \<noteq> None \<and> truthy (link item))"

subsection \<open>RssXmlParser: the item loop and parse\<close>

definition skipped_message :: string where
  "skipped_message = ''Item skipped because it is invalid (required fields are absent)''"

text \<open>The body of the \<^verbatim>\<open>for\<close> loop, over the items still to visit.\<close>

fun parse_items_loop ::
  "world \<Rightarrow> pyval list \<Rightarrow> RssItem list \<Rightarrow> consumer \<Rightarrow> (pyerr + RssItem list) \<times> consumer" where
  "parse_items_loop w [] res m = (Inr res, m)"
| "parse_items_loop w (rss_item_dict # rest) res m =
     (case parse_item w rss_item_dict of
        Inl e \<Rightarrow> (Inl e, m)
      | Inr item \<Rightarrow>
          if validate_correctness item
          then parse_items_loop w rest (res @ [item]) m
          else (case add_message m skipped_message of
                  Inl e \<Rightarrow> (Inl e, m)
                | Inr m' \<Rightarrow> parse_items_loop w rest res m'))"

definition parse_items ::
  "world \<Rightarrow> pyval \<Rightarrow> consumer \<Rightarrow> (pyerr + RssItem list) \<times> consumer" where
  "parse_items w rss_feed_dict m =
     (case subscript rss_feed_dict RSS_CHANNEL of
        Inl e \<Rightarrow> (Inl e, m)
      | Inr channel \<Rightarrow>
     (case subscript channel RSS_ITEMS of
        Inl e \<Rightarrow> (Inl e, m)
      | Inr rss_items_raw \<Rightarrow>
     (case py_iter rss_items_raw of
        Inl e \<Rightarrow> (Inl e, m)
      | Inr raws \<Rightarrow> parse_items_loop w raws [] m)))"

text \<open>The exceptions that \<^verbatim>\<open>except (xml.parsers.expat.ExpatError, KeyError)\<close> catches.\<close>

fun caught_ExpatError_KeyError :: "pyerr \<Rightarrow> bool" where
  "caught_ExpatError_KeyError ExpatError = True"
| "caught_ExpatError_KeyError (KeyError k) = True"
| "caught_ExpatError_KeyError e = False"

definition invalid_feed_message :: string where
  "invalid_feed_message = ''Source doesn't contain a valid RSS Feed.''"

definition RssXmlParser_parse :: "world \<Rightarrow> RssXmlParser \<Rightarrow> (pyerr + RssFeed) \<times> consumer" where
  "RssXmlParser_parse w self =
     (case add_message (mc self) ''Parsing RSS Feed by elements'' of
        Inl e \<Rightarrow> (Inl e, mc self)
      | Inr m1 \<Rightarrow>
     (case (case xmltodict_parse w (xml_feed self) of
              Inl e \<Rightarrow> Inl e
            | Inr tree \<Rightarrow> subscript tree RSS_ROOT) of
        Inl e \<Rightarrow>
          (if caught_ExpatError_KeyError e
           then (Inl (ParsingException invalid_feed_message), m1)
           else (Inl e, m1))
      | Inr rss_feed_dict \<Rightarrow>
     (case add_message m1 ''Parsing items info'' of
        Inl e \<Rightarrow> (Inl e, m1)
      | Inr m2 \<Rightarrow>
     (case parse_items w rss_feed_dict m2 of
        (Inl e, m3) \<Rightarrow> (Inl e, m3)
      | (Inr rss_items_v, m3) \<Rightarrow>
     (case add_message m3 ''Parsing finished'' of
        Inl e \<Rightarrow> (Inl e, m3)
      | Inr m4 \<Rightarrow> (Inr (RssFeed rss_items_v), m4))))))"

subsection \<open>RssUrlParser.parse\<close>

text \<open>The \<^verbatim>\<open>for\<close> loop that assigns \<^verbatim>\<open>item.source\<close>.\<close>

fun stamp_source :: "string \<Rightarrow> RssItem list \<Rightarrow> RssItem list" where
  "stamp_source src [] = []"
| "stamp_source src (item # rest) = item\<lparr>source := PStr src\<rparr> # stamp_source src rest"

text \<open>
  The \<^verbatim>\<open>try\<close> block with its two handlers: the outcome is the body of the response, or
  the exception that leaves the statement. A handler's own \<^verbatim>\<open>add_message\<close> comes before
  its \<^verbatim>\<open>raise\<close>, so an exception of that call is the one that leaves.
\<close>

definition handler_invalid_url :: "string \<Rightarrow> consumer \<Rightarrow> pyerr \<times> consumer" where
  "handler_invalid_url src m =
     (case add_message m ''Encountered an error during reading RSS Feed from URL'' of
        Inl e \<Rightarrow> (e, m)
      | Inr m' \<Rightarrow> (ParsingException (''Invalid source URL: '' @ src), m'))"

definition handler_bare_except :: "string \<Rightarrow> consumer \<Rightarrow> pyerr \<times> consumer" where
  "handler_bare_except src m =
     (case add_message m ''Unable to connect'' of
        Inl e \<Rightarrow> (e, m)
      | Inr m' \<Rightarrow> (ParsingException (''Unable to connect to '' @ src), m'))"

definition fetch :: "world \<Rightarrow> string \<Rightarrow> consumer \<Rightarrow> (pyerr + string) \<times> consumer" where
  "fetch w src m =
     (case add_message m (''Reaching out to '' @ src) of
        Inl e \<Rightarrow> (case handler_bare_except src m of (e', m') \<Rightarrow> (Inl e', m'))
      | Inr m1 \<Rightarrow>
          (case requests_get w src of
             RaisedInvalidSchema \<Rightarrow> (case handler_invalid_url src m1 of (e', m') \<Rightarrow> (Inl e', m'))
           | RaisedInvalidURL \<Rightarrow> (case handler_invalid_url src m1 of (e', m') \<Rightarrow> (Inl e', m'))
           | RaisedMissingSchema \<Rightarrow> (case handler_invalid_url src m1 of (e', m') \<Rightarrow> (Inl e', m'))
           | RaisedOther \<Rightarrow> (case handler_bare_except src m1 of (e', m') \<Rightarrow> (Inl e', m'))
           | Response status_code body \<Rightarrow>
               if status_code \<noteq> 200
               then (case handler_bare_except src m1 of (e', m') \<Rightarrow> (Inl e', m'))
               else (Inr body, m1)))"

definition RssUrlParser_parse :: "world \<Rightarrow> RssUrlParser \<Rightarrow> (pyerr + RssFeed) \<times> consumer" where
  "RssUrlParser_parse w self =
     (case fetch w (url_source self) (mc self) of
        (Inl e, m1) \<Rightarrow> (Inl e, m1)
      | (Inr rss_raw_xml, m1) \<Rightarrow>
          (case RssXmlParser_parse w (RssXmlParser_init rss_raw_xml (Some m1)) of
             (Inl e, m2) \<Rightarrow> (Inl e, m2)
           | (Inr feed, m2) \<Rightarrow>
               (Inr (RssFeed (stamp_source (url_source self) (rss_items feed))), m2)))"

section \<open>Task 4.2: HistoryDict\<close>

text \<open>
  \<^verbatim>\<open>xs[start:]\<close> for a Python integer: a negative start counts from the end and is
  clipped at the front, a start past the end gives the empty list.
\<close>

definition slice_from :: "int \<Rightarrow> 'a list \<Rightarrow> 'a list" where
  "slice_from start xs =
     (let n = int (length xs);
          lo = (if start < 0 then max (n + start) 0 else min start n)
      in drop (nat lo) xs)"

record ('k, 'v) HistoryDict =
  dict :: "'k \<Rightarrow> 'v option"
  count :: int
  history :: "'k list"

definition HistoryDict_init :: "('k \<Rightarrow> 'v option) \<Rightarrow> int \<Rightarrow> ('k, 'v) HistoryDict" where
  "HistoryDict_init d c = \<lparr> dict = d, count = c, history = [] \<rparr>"

text \<open>The default of the constructor's \<^verbatim>\<open>count\<close>.\<close>

definition HistoryDict_init_default :: "('k \<Rightarrow> 'v option) \<Rightarrow> ('k, 'v) HistoryDict" where
  "HistoryDict_init_default d = HistoryDict_init d 10"

definition set_value :: "('k, 'v) HistoryDict \<Rightarrow> 'k \<Rightarrow> 'v \<Rightarrow> ('k, 'v) HistoryDict" where
  "set_value self key val =
     (let s1 = self\<lparr>dict := (dict self)(key \<mapsto> val)\<rparr>;
          s2 = s1\<lparr>history := history s1 @ [key]\<rparr>
      in s2\<lparr>history := slice_from (- count s2) (history s2)\<rparr>)"

definition get_history :: "('k, 'v) HistoryDict \<Rightarrow> 'k list" where
  "get_history self = history self"

text \<open>A sequence of \<^verbatim>\<open>set_value\<close> calls, first call first.\<close>

fun set_values :: "('k, 'v) HistoryDict \<Rightarrow> ('k \<times> 'v) list \<Rightarrow> ('k, 'v) HistoryDict" where
  "set_values self [] = self"
| "set_values self (kv # rest) = set_values (set_value self (fst kv) (snd kv)) rest"

text \<open>
  The claim's words, "the last \<open>m\<close> keys" of a sequence of keys in call order, to
  compare the history with.
\<close>

definition last_keys :: "nat \<Rightarrow> 'a list \<Rightarrow> 'a list" where
  "last_keys m ks = drop (length ks - m) ks"

section \<open>The image candidates, in the claim's words\<close>

text \<open>
  To compare \<open>parse_image\<close> with: the value under a key of the item node (\<^verbatim>\<open>None\<close> when
  the key is absent), the url attribute of a sub-object, whether the enclosure declares
  an image type, the four candidates in their fixed order, and the shape that the
  locations need: a sub-object is absent or a mapping, the declared type of an enclosure
  is absent or a string.
\<close>

definition field_of :: "(string \<times> pyval) list \<Rightarrow> string \<Rightarrow> pyval" where
  "field_of kvs k = (case map_of kvs k of None \<Rightarrow> PNone | Some v \<Rightarrow> v)"

definition url_attribute_of :: "(string \<times> pyval) list \<Rightarrow> string \<Rightarrow> pyval" where
  "url_attribute_of kvs k =
     (case map_of kvs k of Some (PDict sub) \<Rightarrow> field_of sub ''@url'' | _ \<Rightarrow> PNone)"

definition enclosure_is_image :: "(string \<times> pyval) list \<Rightarrow> bool" where
  "enclosure_is_image kvs =
     (case map_of kvs ''enclosure'' of
        Some (PDict sub) \<Rightarrow>
          (case map_of sub ''@type'' of
             Some (PStr t) \<Rightarrow> take (length ''image/'') t = ''image/''
           | _ \<Rightarrow> False)
      | _ \<Rightarrow> False)"

definition image_candidates :: "(string \<times> pyval) list \<Rightarrow> pyval list" where
  "image_candidates kvs =
     [field_of kvs ''image'',
      url_attribute_of kvs ''media:content'',
      url_attribute_of kvs ''media:thumbnail'',
      (if enclosure_is_image kvs then url_attribute_of kvs ''enclosure'' else PNone)]"

definition sub_object_ok :: "(string \<times> pyval) list \<Rightarrow> string \<Rightarrow> bool" where
  "sub_object_ok kvs k =
     (case map_of kvs k of None \<Rightarrow> True | Some (PDict sub) \<Rightarrow> True | Some _ \<Rightarrow> False)"

definition enclosure_type_ok :: "(string \<times> pyval) list \<Rightarrow> bool" where
  "enclosure_type_ok kvs =
     (case map_of kvs ''enclosure'' of
        Some (PDict sub) \<Rightarrow>
          (case map_of sub ''@type'' of
             None \<Rightarrow> True | Some (PStr t) \<Rightarrow> True | Some _ \<Rightarrow> False)
      | _ \<Rightarrow> True)"

text \<open>
  Only the locations that are consulted need the shape: the chain stops at the first
  non-empty candidate, and what stands at the later locations is never looked at.
\<close>

definition consulted_locations_ok :: "(string \<times> pyval) list \<Rightarrow> bool" where
  "consulted_locations_ok kvs =
     (truthy (field_of kvs ''image'') \<or>
      (sub_object_ok kvs ''media:content'' \<and>
       (truthy (url_attribute_of kvs ''media:content'') \<or>
        (sub_object_ok kvs ''media:thumbnail'' \<and>
         (truthy (url_attribute_of kvs ''media:thumbnail'') \<or>
          (sub_object_ok kvs ''enclosure'' \<and> enclosure_type_ok kvs))))))"

text \<open>
  When no candidate is non-empty, the value returned is the one read last: the
  enclosure's url when the enclosure declares an image type, the thumbnail's otherwise.
\<close>

definition last_consulted :: "(string \<times> pyval) list \<Rightarrow> pyval" where
  "last_consulted kvs =
     (if enclosure_is_image kvs then url_attribute_of kvs ''enclosure''
      else url_attribute_of kvs ''media:thumbnail'')"

section \<open>A world for the examples\<close>

text \<open>
  A concrete world to evaluate the parsers in: the decoder returns the given tree for
  every document, \<open>sanitize_text\<close> returns its argument, \<open>to_date\<close> gives a timestamp
  for every non-empty string and \<^verbatim>\<open>None\<close> otherwise, the HTTP client has the given
  outcome, no file exists and the JSON mapper accepts nothing.
\<close>

definition example_world :: "pyval \<Rightarrow> http_outcome \<Rightarrow> world" where
  "example_world tree outcome =
     \<lparr> xmltodict_parse = (\<lambda>doc. Inr tree),
       sanitize_text = (\<lambda>v. Inr v),
       to_date = (\<lambda>v. Inr (case v of
                               PStr s \<Rightarrow> (if s = [] then None else Some (Datetime 0))
                             | _ \<Rightarrow> None)),
       requests_get = (\<lambda>url. outcome),
       files = (\<lambda>path. None),
       from_json = (\<lambda>text. Inl (OtherError ''not a snapshot'')) \<rparr>"


section \<open>The validator\<close>

text \<open>
  C5. The validator accepts a candidate item exactly when its title is non-empty (not
  \<^verbatim>\<open>None\<close> and not an empty string, list or dict), its publication date is not \<^verbatim>\<open>None\<close>
  and its link is non-empty; changing the description and the image URL never changes
  the verdict.
\<close>

theorem validate_correctness_required_fields:
  "validate_correctness item =
     (title item \<notin> {PNone, PStr [], PList [], PDict []}
      \<and> publication_date item \<noteq> None
      \<and> link item \<notin> {PNone, PStr [], PList [], PDict []})
   \<and> validate_correctness (item\<lparr>description := d, image_url := u\<rparr>)
       = validate_correctness item"
  by (cases "title item"; cases "link item") (simp_all add: validate_correctness_def)

section \<open>HistoryDict keeps the latest keys\<close>

lemma last_keys_rev: "last_keys m ks = rev (take m (rev ks))"
  by (simp add: last_keys_def rev_take)

lemma last_keys_absorb: "last_keys m (last_keys m xs @ ys) = last_keys m (xs @ ys)"
  by (simp add: last_keys_rev min_def)

lemma length_last_keys: "length (last_keys m ks) = min m (length ks)"
  by (simp add: last_keys_def)

lemma last_keys_short: "length ks \<le> m \<Longrightarrow> last_keys m ks = ks"
  by (simp add: last_keys_def)

text \<open>With a positive count the slice \<^verbatim>\<open>history[-count:]\<close> is the last \<open>count\<close> keys.\<close>

lemma slice_from_neg: "1 \<le> c \<Longrightarrow> slice_from (- c) xs = last_keys (nat c) xs"
  by (auto simp: slice_from_def last_keys_def Let_def max_def intro!: arg_cong2[where f=drop])

text \<open>
  With count 0 the slice is \<^verbatim>\<open>history[-0:]\<close>, that is \<^verbatim>\<open>history[0:]\<close>: nothing is dropped.
  A negative count drops from the front instead.
\<close>

lemma slice_from_zero: "slice_from (- 0) xs = xs"
  by (simp add: slice_from_def)

lemma slice_from_pos: "c < 0 \<Longrightarrow> slice_from (- c) xs = drop (nat (- c)) xs"
  by (simp add: slice_from_def Let_def min_def)

lemma history_set_value:
  "1 \<le> count h \<Longrightarrow> history (set_value h k v) = last_keys (nat (count h)) (history h @ [k])"
  by (simp add: set_value_def Let_def slice_from_neg)

lemma count_set_value: "count (set_value h k v) = count h"
  by (simp add: set_value_def Let_def)

lemma dict_set_value: "dict (set_value h k v) = (dict h)(k \<mapsto> v)"
  by (simp add: set_value_def Let_def)

lemma history_set_values:
  "1 \<le> count h \<Longrightarrow> length (history h) \<le> nat (count h) \<Longrightarrow>
   history (set_values h kvs) = last_keys (nat (count h)) (history h @ map fst kvs)"
proof (induction kvs arbitrary: h)
  case Nil
  then show ?case by (simp add: last_keys_short)
next
  case (Cons kv kvs)
  let ?h' = "set_value h (fst kv) (snd kv)"
  have c: "count ?h' = count h" by (rule count_set_value)
  have hist: "history ?h' = last_keys (nat (count h)) (history h @ [fst kv])"
    using Cons.prems(1) by (rule history_set_value)
  have len: "length (history ?h') \<le> nat (count ?h')"
    by (simp add: hist c length_last_keys)
  have "history (set_values ?h' kvs) = last_keys (nat (count ?h')) (history ?h' @ map fst kvs)"
    using Cons.prems(1) len by (intro Cons.IH) (simp_all add: c)
  also have "\<dots> = last_keys (nat (count h)) ((history h @ [fst kv]) @ map fst kvs)"
    by (simp only: c hist last_keys_absorb)
  finally show ?case by simp
qed

lemma dict_set_values: "dict (set_values h kvs) = dict h ++ map_of (rev kvs)"
  by (induction kvs arbitrary: h) (simp_all add: dict_set_value map_add_upd_left)

text \<open>The script at the end of the module prints \<^verbatim>\<open>['a', 'b', 'c', 'd']\<close>.\<close>

lemma module_script_prints:
  "get_history (set_values (HistoryDict_init_default [''foo'' \<mapsto> (42::int)])
     [(''a'', 43), (''b'', 43), (''c'', 43), (''d'', 43)]) = [''a'', ''b'', ''c'', ''d'']"
  by (simp add: get_history_def HistoryDict_init_default_def HistoryDict_init_def
      set_value_def slice_from_def)

text \<open>
  With the count 0 the slice keeps everything, so the history grows with every call.
  With a negative count the slice drops from the front, and the history stays empty.
\<close>

lemma history_count_zero_set_values:
  "count h = 0 \<Longrightarrow> history (set_values h kvs) = history h @ map fst kvs"
proof (induction kvs arbitrary: h)
  case Nil
  then show ?case by simp
next
  case (Cons kv kvs)
  have c: "count (set_value h (fst kv) (snd kv)) = 0"
    using Cons.prems by (simp add: count_set_value)
  have hist: "history (set_value h (fst kv) (snd kv)) = history h @ [fst kv]"
    using Cons.prems by (simp add: set_value_def Let_def slice_from_def)
  show ?case using Cons.IH[OF c] by (simp add: hist)
qed

lemma history_negative_count_set_values:
  "count h < 0 \<Longrightarrow> history h = [] \<Longrightarrow> history (set_values h kvs) = []"
proof (induction kvs arbitrary: h)
  case Nil
  then show ?case by simp
next
  case (Cons kv kvs)
  have c: "count (set_value h (fst kv) (snd kv)) < 0"
    using Cons.prems by (simp add: count_set_value)
  have hist: "history (set_value h (fst kv) (snd kv)) = []"
    using Cons.prems by (auto simp: set_value_def Let_def slice_from_def min_def)
  show ?case using Cons.IH[OF c hist] by simp
qed

text \<open>
  C10. A HistoryDict constructed with the capacity \<open>count\<close> should return, after \<open>n\<close>
  calls of \<^verbatim>\<open>set_value\<close>, the last \<open>min n count\<close> keys. The code does not for the
  capacity 0: \<^verbatim>\<open>history[-0:]\<close> is the whole list, so the history holds every key ever
  passed, in call order. After one call it is \<^verbatim>\<open>['a']\<close>, where the last
  \<open>min 1 0 = 0\<close> keys are none.
\<close>

theorem history_count_zero_keeps_every_key:
  "get_history (set_values (HistoryDict_init d 0) kvs) = map fst kvs
   \<and> get_history (set_values (HistoryDict_init Map.empty 0) [(''a'', 43::int)]) = [''a'']
   \<and> last_keys (min (length [(''a'', 43::int)]) (nat 0)) (map fst [(''a'', 43::int)]) = []"
  using history_count_zero_set_values[of "HistoryDict_init d 0" kvs]
  by (simp add: get_history_def HistoryDict_init_def set_value_def slice_from_def last_keys_def)

text \<open>
  For every other count the history is what the claim says. With a count of at least 1,
  after any sequence of \<open>n\<close> calls of \<^verbatim>\<open>set_value\<close> the history is exactly the last
  \<open>min n count\<close> keys passed, in call order and with duplicates; the dict holds the
  initial dict overwritten by the calls (a later call wins), and each call stores its
  value under its key.
\<close>

theorem history_is_last_count_keys:
  "1 \<le> c \<Longrightarrow>
   get_history (set_values (HistoryDict_init d c) kvs)
     = last_keys (min (length kvs) (nat c)) (map fst kvs)
   \<and> length (get_history (set_values (HistoryDict_init d c) kvs)) = min (length kvs) (nat c)
   \<and> dict (set_values (HistoryDict_init d c) kvs) = d ++ map_of (rev kvs)
   \<and> dict (set_value h k v) k = Some v"
  using history_set_values[of "HistoryDict_init d c" kvs]
  by (auto simp: get_history_def HistoryDict_init_def dict_set_values dict_set_value
      last_keys_def min_def)

theorem history_is_last_count_keys_witness:
  "(1::int) \<le> 2
   \<and> get_history (set_values (HistoryDict_init Map.empty 2)
         [(''a'', 43::int), (''b'', 44), (''a'', 45)]) = [''b'', ''a'']
   \<and> dict (set_values (HistoryDict_init Map.empty 2)
         [(''a'', 43::int), (''b'', 44), (''a'', 45)]) ''a'' = Some 45"
  using history_is_last_count_keys[of 2 Map.empty "[(''a'', 43::int), (''b'', 44), (''a'', 45)]"
      "HistoryDict_init (Map.empty :: string \<Rightarrow> int option) 2" "''a''" 43]
  by (simp add: last_keys_def)

text \<open>With a negative count the last \<open>min n count\<close> keys are none, and so is the history.\<close>

lemma history_negative_count_is_empty:
  "c < 0 \<Longrightarrow> get_history (set_values (HistoryDict_init d c) kvs)
     = last_keys (nat (min (int (length kvs)) c)) (map fst kvs)"
  using history_negative_count_set_values[of "HistoryDict_init d c" kvs]
  by (simp add: get_history_def HistoryDict_init_def last_keys_def min_def)


section \<open>The image of an item\<close>

lemmas image_keys = RSS_IMAGE_ROOT_def RSS_IMAGE_ROOT_MEDIA_CONTENT_def
  RSS_IMAGE_ROOT_MEDIA_THUMBNAIL_def RSS_IMAGE_ROOT_ENCLOSURE_def RSS_IMAGE_URL_ATTR_def

lemma dict_get_PDict:
  "dict_get (PDict kvs) k dflt = Inr (case map_of kvs k of None \<Rightarrow> dflt | Some v \<Rightarrow> v)"
  by (simp split: option.splits)

lemma get_url_of_sub:
  "sub_object_ok kvs k \<Longrightarrow>
   (case dict_get (PDict kvs) k (PDict []) of
      Inl e \<Rightarrow> Inl e
    | Inr sub \<Rightarrow> dict_get sub ''@url'' PNone) = Inr (url_attribute_of kvs k)"
  by (auto simp: sub_object_ok_def url_attribute_of_def field_of_def
      split: option.splits pyval.splits)

lemma get_enclosure:
  "sub_object_ok kvs ''enclosure'' \<Longrightarrow> enclosure_type_ok kvs \<Longrightarrow>
   (case dict_get (PDict kvs) ''enclosure'' (PDict []) of
      Inl e \<Rightarrow> Inl e
    | Inr enclosure \<Rightarrow>
        (case dict_get enclosure ''@type'' (PStr '''') of
           Inl e \<Rightarrow> Inl e
         | Inr ty \<Rightarrow>
             (case startswith ty ''image/'' of
                Inl e \<Rightarrow> Inl e
              | Inr True \<Rightarrow> dict_get enclosure ''@url'' PNone
              | Inr False \<Rightarrow> Inr x)))
   = Inr (if enclosure_is_image kvs then url_attribute_of kvs ''enclosure'' else x)"
  by (auto simp: sub_object_ok_def enclosure_type_ok_def enclosure_is_image_def
      url_attribute_of_def field_of_def split: option.splits pyval.splits bool.splits)

text \<open>The four stages of the chain, each reached only when the earlier ones gave nothing.\<close>

lemma parse_image_first:
  "truthy (field_of kvs ''image'') \<Longrightarrow> parse_image (PDict kvs) = Inr (field_of kvs ''image'')"
  unfolding parse_image_def image_keys
  by (simp add: dict_get_PDict field_of_def del: dict_get.simps)

lemma parse_image_second:
  "\<not> truthy (field_of kvs ''image'') \<Longrightarrow> sub_object_ok kvs ''media:content'' \<Longrightarrow>
   truthy (url_attribute_of kvs ''media:content'') \<Longrightarrow>
   parse_image (PDict kvs) = Inr (url_attribute_of kvs ''media:content'')"
  using get_url_of_sub[of kvs "''media:content''"]
  unfolding parse_image_def image_keys
  by (simp add: dict_get_PDict[of kvs "''image''"] field_of_def del: dict_get.simps)

lemma parse_image_third:
  "\<not> truthy (field_of kvs ''image'') \<Longrightarrow> sub_object_ok kvs ''media:content'' \<Longrightarrow>
   \<not> truthy (url_attribute_of kvs ''media:content'') \<Longrightarrow>
   sub_object_ok kvs ''media:thumbnail'' \<Longrightarrow>
   truthy (url_attribute_of kvs ''media:thumbnail'') \<Longrightarrow>
   parse_image (PDict kvs) = Inr (url_attribute_of kvs ''media:thumbnail'')"
  using get_url_of_sub[of kvs "''media:content''"] get_url_of_sub[of kvs "''media:thumbnail''"]
  unfolding parse_image_def image_keys
  by (simp add: dict_get_PDict[of kvs "''image''"] field_of_def del: dict_get.simps)

lemma parse_image_fourth:
  "\<not> truthy (field_of kvs ''image'') \<Longrightarrow> sub_object_ok kvs ''media:content'' \<Longrightarrow>
   \<not> truthy (url_attribute_of kvs ''media:content'') \<Longrightarrow>
   sub_object_ok kvs ''media:thumbnail'' \<Longrightarrow>
   \<not> truthy (url_attribute_of kvs ''media:thumbnail'') \<Longrightarrow>
   sub_object_ok kvs ''enclosure'' \<Longrightarrow> enclosure_type_ok kvs \<Longrightarrow>
   parse_image (PDict kvs) = Inr (last_consulted kvs)"
  using get_url_of_sub[of kvs "''media:content''"] get_url_of_sub[of kvs "''media:thumbnail''"]
    get_enclosure[of kvs "url_attribute_of kvs ''media:thumbnail''"]
  unfolding parse_image_def image_keys
  by (simp add: dict_get_PDict[of kvs "''image''"] field_of_def last_consulted_def
      del: dict_get.simps)

text \<open>An item node that is not a mapping has no \<^verbatim>\<open>get\<close>.\<close>

lemma parse_image_not_a_mapping:
  "parse_image PNone = Inl AttributeError"
  "parse_image (PStr s) = Inl AttributeError"
  "parse_image (PList xs) = Inl AttributeError"
  by (simp_all add: parse_image_def)

text \<open>
  A consulted sub-object that is present but not a mapping makes the extraction raise:
  an item with two \<^verbatim>\<open>media:content\<close> elements decodes to a list under that key.
\<close>

lemma parse_image_repeated_media_content_raises:
  "parse_image (PDict [(''media:content'',
      PList [PDict [(''@url'', PStr ''http://a/1.jpg'')],
             PDict [(''@url'', PStr ''http://a/2.jpg'')]])]) = Inl AttributeError"
  unfolding parse_image_def image_keys by simp

text \<open>
  C4, as the claim states it, fails for an item whose only image location is a
  \<^verbatim>\<open>media:thumbnail\<close> with an empty url attribute: no candidate is non-empty, and the
  image URL returned is the empty string, not \<^verbatim>\<open>None\<close>.
\<close>

theorem parse_image_empty_url_not_null:
  "find truthy (image_candidates [(''media:thumbnail'', PDict [(''@url'', PStr '''')])]) = None
   \<and> parse_image (PDict [(''media:thumbnail'', PDict [(''@url'', PStr '''')])]) = Inr (PStr '''')
   \<and> parse_image (PDict [(''media:thumbnail'', PDict [(''@url'', PStr '''')])]) \<noteq> Inr PNone"
  unfolding parse_image_def image_keys
  by (simp add: image_candidates_def field_of_def url_attribute_of_def enclosure_is_image_def)

text \<open>
  C4, amended. For every item node that is a mapping and whose consulted sub-objects
  are absent or mappings (the declared type of a consulted enclosure absent or a
  string), the extraction raises nothing and the image URL is the first non-empty
  candidate in the fixed order: the direct image field, the url attribute of
  \<^verbatim>\<open>media:content\<close>, of \<^verbatim>\<open>media:thumbnail\<close>, of \<^verbatim>\<open>enclosure\<close> (the last one only when the
  declared type starts with \<^verbatim>\<open>image/\<close>). The locations after the first non-empty candidate
  are not consulted, so their shape does not matter. When no candidate is non-empty the
  image URL is an empty value, the one read at the last location consulted; it is
  \<^verbatim>\<open>None\<close> when the four keys are absent.
\<close>

theorem parse_image_first_nonempty_candidate:
  "consulted_locations_ok kvs \<Longrightarrow>
   parse_image (PDict kvs) =
     Inr (case find truthy (image_candidates kvs) of
            Some v \<Rightarrow> v
          | None \<Rightarrow> last_consulted kvs)
   \<and> (find truthy (image_candidates kvs) = None \<longrightarrow> \<not> truthy (last_consulted kvs))
   \<and> ((\<forall>k \<in> {''image'', ''media:content'', ''media:thumbnail'', ''enclosure''}.
          map_of kvs k = None)
        \<longrightarrow> parse_image (PDict kvs) = Inr PNone)"
proof -
  assume ok: "consulted_locations_ok kvs"
  let ?c1 = "field_of kvs ''image''"
  let ?c2 = "url_attribute_of kvs ''media:content''"
  let ?c3 = "url_attribute_of kvs ''media:thumbnail''"
  consider (first) "truthy ?c1"
    | (second) "\<not> truthy ?c1" "sub_object_ok kvs ''media:content''" "truthy ?c2"
    | (third) "\<not> truthy ?c1" "sub_object_ok kvs ''media:content''" "\<not> truthy ?c2"
        "sub_object_ok kvs ''media:thumbnail''" "truthy ?c3"
    | (fourth) "\<not> truthy ?c1" "sub_object_ok kvs ''media:content''" "\<not> truthy ?c2"
        "sub_object_ok kvs ''media:thumbnail''" "\<not> truthy ?c3"
        "sub_object_ok kvs ''enclosure''" "enclosure_type_ok kvs"
    using ok unfolding consulted_locations_ok_def by blast
  then have main: "parse_image (PDict kvs) =
     Inr (case find truthy (image_candidates kvs) of
            Some v \<Rightarrow> v
          | None \<Rightarrow> last_consulted kvs)"
  proof cases
    case first
    then show ?thesis by (simp add: parse_image_first image_candidates_def)
  next
    case second
    then show ?thesis by (simp add: parse_image_second image_candidates_def)
  next
    case third
    then show ?thesis by (simp add: parse_image_third image_candidates_def)
  next
    case fourth
    then show ?thesis
      by (simp add: parse_image_fourth image_candidates_def last_consulted_def)
  qed
  have none: "find truthy (image_candidates kvs) = None \<longrightarrow> \<not> truthy (last_consulted kvs)"
    by (simp add: image_candidates_def last_consulted_def split: if_splits)
  have absent:
    "(\<forall>k \<in> {''image'', ''media:content'', ''media:thumbnail'', ''enclosure''}.
        map_of kvs k = None)
     \<longrightarrow> parse_image (PDict kvs) = Inr PNone"
    unfolding main
    by (simp add: image_candidates_def last_consulted_def field_of_def url_attribute_of_def
        enclosure_is_image_def)
  show ?thesis using main none absent by blast
qed

text \<open>
  The witness: a direct image field wins over \<^verbatim>\<open>media:content\<close>, even when the
  \<^verbatim>\<open>media:content\<close> and the enclosure that follow are not mappings.
\<close>

theorem parse_image_first_nonempty_candidate_witness:
  "consulted_locations_ok
     [(''image'', PStr ''http://a/i.png''), (''media:content'', PList []),
      (''enclosure'', PStr ''x'')]
   \<and> parse_image (PDict
     [(''image'', PStr ''http://a/i.png''), (''media:content'', PList []),
      (''enclosure'', PStr ''x'')]) = Inr (PStr ''http://a/i.png'')"
proof -
  let ?kvs = "[(''image'', PStr ''http://a/i.png''), (''media:content'', PList []),
      (''enclosure'', PStr ''x'')]"
  have ok: "consulted_locations_ok ?kvs"
    by (simp add: consulted_locations_ok_def field_of_def)
  from parse_image_first_nonempty_candidate[OF ok] show ?thesis
    using ok by (simp add: image_candidates_def field_of_def)
qed

text \<open>The four examples of the specification's image priority.\<close>

lemma parse_image_spec_examples:
  "parse_image (PDict [(''image'', PStr ''i''), (''media:content'', PDict [(''@url'', PStr ''c'')])])
     = Inr (PStr ''i'')"
  "parse_image (PDict [(''media:content'', PDict [(''@url'', PStr ''c'')]),
                       (''media:thumbnail'', PDict [(''@url'', PStr ''t'')])])
     = Inr (PStr ''c'')"
  "parse_image (PDict [(''enclosure'', PDict [(''@type'', PStr ''text/html''), (''@url'', PStr ''e'')])])
     = Inr PNone"
  "parse_image (PDict [(''enclosure'', PDict [(''@type'', PStr ''image/jpeg''), (''@url'', PStr ''e'')])])
     = Inr (PStr ''e'')"
  unfolding parse_image_def image_keys by simp_all


section \<open>The parsers and the message consumer\<close>

lemmas rss_keys = RSS_ROOT_def RSS_CHANNEL_def RSS_ITEMS_def RSS_ITEM_TITLE_def
  RSS_ITEM_DESCRIPTION_def RSS_ITEM_PUB_DATE_def RSS_ITEM_LINK_def RSS_IMAGE_ROOT_def
  RSS_IMAGE_ROOT_MEDIA_CONTENT_def RSS_IMAGE_ROOT_MEDIA_THUMBNAIL_def
  RSS_IMAGE_ROOT_ENCLOSURE_def RSS_IMAGE_URL_ATTR_def

text \<open>What the constructors leave in the object.\<close>

lemma RssXmlParser_init_fields [simp]:
  "mc (RssXmlParser_init doc (Some m)) = m"
  "mc (RssXmlParser_init doc None) = PyNone"
  "xml_feed (RssXmlParser_init doc a) = doc"
  by (simp_all add: RssXmlParser_init_def RssParser_init_def)

lemma RssUrlParser_init_fields [simp]:
  "mc (RssUrlParser_init src (Some m)) = m"
  "mc (RssUrlParser_init src None) = PyNone"
  "url_source (RssUrlParser_init src a) = src"
  by (simp_all add: RssUrlParser_init_def RssParser_init_def)

lemma RssJsonParser_init_fields [simp]:
  "mc (RssJsonParser_init path (Some m)) = m"
  "mc (RssJsonParser_init path None) = PyNone"
  "file_name (RssJsonParser_init path a) = path"
  by (simp_all add: RssJsonParser_init_def RssParser_init_def)

text \<open>
  C2. A parser constructed without a message consumer should use the no-op consumer and
  parse as with any consumer supplied. The code does not: the XML parser and the URL
  parser constructed without the argument hold \<^verbatim>\<open>None\<close>, not the no-op consumer, and
  their \<open>parse\<close> raises \<open>AttributeError\<close> at the first \<^verbatim>\<open>add_message\<close>, for every
  document, every source and every world.
\<close>

theorem parse_without_consumer_raises_AttributeError:
  "fst (RssXmlParser_parse w (RssXmlParser_init doc None)) = Inl AttributeError
   \<and> fst (RssUrlParser_parse w (RssUrlParser_init src None)) = Inl AttributeError
   \<and> mc (RssXmlParser_init doc None) \<noteq> MESSAGE_CONSUMER_NOOP
   \<and> mc (RssUrlParser_init src None) \<noteq> MESSAGE_CONSUMER_NOOP"
  by (simp add: RssXmlParser_parse_def RssUrlParser_parse_def fetch_def
      handler_bare_except_def)

text \<open>The JSON parser never calls its consumer, so leaving it out changes nothing.\<close>

lemma json_parse_ignores_consumer:
  "RssJsonParser_parse w (RssJsonParser_init path None)
     = RssJsonParser_parse w (RssJsonParser_init path (Some m))"
  by (simp add: RssJsonParser_parse_def)

section \<open>Structural failures of the XML parser\<close>

text \<open>
  A document that is not XML, and a tree without the root key, raise
  \<open>ParsingException\<close>: the \<^verbatim>\<open>try\<close> statement covers the decoding and the root lookup.
\<close>

lemma xml_parse_decode_failure:
  "m \<noteq> PyNone \<Longrightarrow> xmltodict_parse w doc = Inl ExpatError \<Longrightarrow>
   fst (RssXmlParser_parse w (RssXmlParser_init doc (Some m)))
     = Inl (ParsingException invalid_feed_message)"
  by (cases m) (simp_all add: RssXmlParser_parse_def)

lemma xml_parse_missing_root:
  "m \<noteq> PyNone \<Longrightarrow> xmltodict_parse w doc = Inr (PDict kvs) \<Longrightarrow> map_of kvs ''rss'' = None \<Longrightarrow>
   fst (RssXmlParser_parse w (RssXmlParser_init doc (Some m)))
     = Inl (ParsingException invalid_feed_message)"
  by (cases m) (simp_all add: RssXmlParser_parse_def rss_keys)

text \<open>
  C1. A document whose tree lacks the channel key or the item key should make \<open>parse\<close>
  fail with \<open>ParsingException\<close>, never with another error. The code does not: the two
  lookups of \<open>parse_items\<close> stand after the \<^verbatim>\<open>try\<close> statement, and their \<open>KeyError\<close>
  leaves \<open>parse\<close> as it is. The trees are those of
  \<^verbatim>\<open><rss version="2.0"></rss>\<close> and of a channel that has a title and no item.
\<close>

theorem xml_parse_missing_channel_or_item_raises_KeyError:
  "fst (RssXmlParser_parse
          (example_world (PDict [(''rss'', PDict [(''@version'', PStr ''2.0'')])]) RaisedOther)
          (RssXmlParser_init doc (Some MESSAGE_CONSUMER_NOOP)))
     = Inl (KeyError ''channel'')
   \<and> fst (RssXmlParser_parse
          (example_world
             (PDict [(''rss'', PDict [(''channel'', PDict [(''title'', PStr ''News'')])])])
             RaisedOther)
          (RssXmlParser_init doc (Some MESSAGE_CONSUMER_NOOP)))
     = Inl (KeyError ''item'')"
  unfolding RssXmlParser_parse_def parse_items_def rss_keys
  by (simp add: example_world_def)

text \<open>
  C6. A channel whose item entry is a lone item object should be parsed as a feed of
  that one item. The code does not normalise the entry: the loop iterates over the keys
  of the object, and \<open>parse_item\<close> raises \<open>AttributeError\<close> on the first key, a string.
  The same item inside a one-element list gives the one-item feed.
\<close>

theorem xml_parse_lone_item_raises_AttributeError:
  "fst (RssXmlParser_parse
          (example_world
             (PDict [(''rss'', PDict [(''channel'', PDict [(''item'',
                PDict [(''title'', PStr ''T''), (''link'', PStr ''L''),
                       (''pubDate'', PStr ''Mon, 01 Jan 2024 00:00:00 GMT'')])])])])
             RaisedOther)
          (RssXmlParser_init doc (Some MESSAGE_CONSUMER_NOOP)))
     = Inl AttributeError
   \<and> fst (RssXmlParser_parse
          (example_world
             (PDict [(''rss'', PDict [(''channel'', PDict [(''item'',
                PList [PDict [(''title'', PStr ''T''), (''link'', PStr ''L''),
                              (''pubDate'', PStr ''Mon, 01 Jan 2024 00:00:00 GMT'')]])])])])
             RaisedOther)
          (RssXmlParser_init doc (Some MESSAGE_CONSUMER_NOOP)))
     = Inr (RssFeed [\<lparr> title = PStr ''T'', description = PNone,
                       publication_date = Some (Datetime 0), link = PStr ''L'',
                       image_url = PNone, source = PNone \<rparr>])"
  by (simp add: RssXmlParser_parse_def parse_items_def parse_item_def parse_image_def
      rss_keys example_world_def validate_correctness_def)

section \<open>The item loop keeps the valid items in order\<close>

text \<open>
  The loop over raw items that the extractor turns into the candidates \<open>cands\<close>, one
  for one and without raising: the result is what it already held followed by the valid
  candidates in their order, and a recording consumer has received one message for each
  rejected candidate.
\<close>

lemma parse_items_loop_Collector:
  "map (parse_item w) raws = map Inr cands \<Longrightarrow>
   parse_items_loop w raws res (Collector log) =
     (Inr (res @ filter validate_correctness cands),
      Collector (log @ replicate (length (filter (\<lambda>c. \<not> validate_correctness c) cands))
                         skipped_message))"
proof (induction raws arbitrary: cands res log)
  case Nil
  then show ?case by simp
next
  case (Cons raw raws)
  then obtain c cs where cands: "cands = c # cs" and c: "parse_item w raw = Inr c"
    and cs: "map (parse_item w) raws = map Inr cs"
    by (cases cands) auto
  show ?case
  proof (cases "validate_correctness c")
    case True
    then show ?thesis using Cons.IH[OF cs] by (simp add: cands c)
  next
    case False
    then show ?thesis using Cons.IH[OF cs]
      by (simp add: cands c replicate_app_Cons_same)
  qed
qed

lemma parse_items_loop_NOOP:
  "map (parse_item w) raws = map Inr cands \<Longrightarrow>
   parse_items_loop w raws res MESSAGE_CONSUMER_NOOP =
     (Inr (res @ filter validate_correctness cands), MESSAGE_CONSUMER_NOOP)"
proof (induction raws arbitrary: cands res)
  case Nil
  then show ?case by simp
next
  case (Cons raw raws)
  then obtain c cs where cands: "cands = c # cs" and c: "parse_item w raw = Inr c"
    and cs: "map (parse_item w) raws = map Inr cs"
    by (cases cands) auto
  show ?case
    using Cons.IH[OF cs] by (cases "validate_correctness c") (simp_all add: cands c)
qed

lemma length_filter_rejected:
  "length (filter P xs) = length xs - length (filter (\<lambda>x. \<not> P x) xs)"
  using sum_length_filter_compl[of P xs] by simp

text \<open>
  When the item entry is a list and the extractor returns a candidate for each of its
  \<open>N\<close> raw items, \<open>parse\<close> with a consumer returns the feed of the candidates that pass
  the validator, in document order: \<open>N - K\<close> items when \<open>K\<close> candidates fail. A
  recording consumer has received, between the two progress messages and the final one,
  exactly one diagnostic message for each rejected candidate.
\<close>

theorem xml_parse_keeps_valid_items_in_order:
  assumes "xmltodict_parse w doc = Inr tree"
    and "subscript tree RSS_ROOT = Inr root"
    and "subscript root RSS_CHANNEL = Inr channel"
    and "subscript channel RSS_ITEMS = Inr (PList raws)"
    and "map (parse_item w) raws = map Inr cands"
  shows "RssXmlParser_parse w (RssXmlParser_init doc (Some (Collector log))) =
      (Inr (RssFeed (filter validate_correctness cands)),
       Collector (log @ [''Parsing RSS Feed by elements'', ''Parsing items info'']
          @ replicate (length (filter (\<lambda>c. \<not> validate_correctness c) cands))
              skipped_message
          @ [''Parsing finished'']))
    \<and> RssXmlParser_parse w (RssXmlParser_init doc (Some MESSAGE_CONSUMER_NOOP)) =
      (Inr (RssFeed (filter validate_correctness cands)), MESSAGE_CONSUMER_NOOP)
    \<and> length (filter validate_correctness cands)
        = length raws - length (filter (\<lambda>c. \<not> validate_correctness c) cands)"
proof -
  have len: "length raws = length cands"
    using assms(5) by (metis length_map)
  have items_c: "parse_items w root (Collector l) =
      (Inr (filter validate_correctness cands),
       Collector (l @ replicate (length (filter (\<lambda>c. \<not> validate_correctness c) cands))
                        skipped_message))" for l
    using parse_items_loop_Collector[OF assms(5), of "[]" l]
    by (simp add: parse_items_def assms)
  have items_n: "parse_items w root MESSAGE_CONSUMER_NOOP =
      (Inr (filter validate_correctness cands), MESSAGE_CONSUMER_NOOP)"
    using parse_items_loop_NOOP[OF assms(5), of "[]"] by (simp add: parse_items_def assms)
  show ?thesis
    by (simp add: RssXmlParser_parse_def assms items_c items_n len
        length_filter_rejected[symmetric])
qed

text \<open>
  The witness: three items, the second without a link. The feed holds the first and
  the third, and the consumer has one diagnostic message.
\<close>

theorem xml_parse_keeps_valid_items_in_order_witness:
  "RssXmlParser_parse
     (example_world (PDict [(''rss'', PDict [(''channel'', PDict [(''item'', PList [
        PDict [(''title'', PStr ''A''), (''link'', PStr ''http://a''),
               (''pubDate'', PStr ''Mon, 01 Jan 2024'')],
        PDict [(''title'', PStr ''B''), (''pubDate'', PStr ''Tue, 02 Jan 2024'')],
        PDict [(''title'', PStr ''C''), (''link'', PStr ''http://c''),
               (''pubDate'', PStr ''Wed, 03 Jan 2024'')]])])])]) RaisedOther)
     (RssXmlParser_init ''<rss>...</rss>'' (Some (Collector []))) =
   (Inr (RssFeed [
      \<lparr> title = PStr ''A'', description = PNone, publication_date = Some (Datetime 0),
        link = PStr ''http://a'', image_url = PNone, source = PNone \<rparr>,
      \<lparr> title = PStr ''C'', description = PNone, publication_date = Some (Datetime 0),
        link = PStr ''http://c'', image_url = PNone, source = PNone \<rparr>]),
    Collector [''Parsing RSS Feed by elements'', ''Parsing items info'', skipped_message,
               ''Parsing finished''])"
proof -
  let ?a = "PDict [(''title'', PStr ''A''), (''link'', PStr ''http://a''),
               (''pubDate'', PStr ''Mon, 01 Jan 2024'')]"
  let ?b = "PDict [(''title'', PStr ''B''), (''pubDate'', PStr ''Tue, 02 Jan 2024'')]"
  let ?c = "PDict [(''title'', PStr ''C''), (''link'', PStr ''http://c''),
               (''pubDate'', PStr ''Wed, 03 Jan 2024'')]"
  let ?channel = "PDict [(''item'', PList [?a, ?b, ?c])]"
  let ?root = "PDict [(''channel'', ?channel)]"
  let ?tree = "PDict [(''rss'', ?root)]"
  let ?w = "example_world ?tree RaisedOther"
  let ?cands = "[
      \<lparr> title = PStr ''A'', description = PNone, publication_date = Some (Datetime 0),
        link = PStr ''http://a'', image_url = PNone, source = PNone \<rparr>,
      \<lparr> title = PStr ''B'', description = PNone, publication_date = Some (Datetime 0),
        link = PNone, image_url = PNone, source = PNone \<rparr>,
      \<lparr> title = PStr ''C'', description = PNone, publication_date = Some (Datetime 0),
        link = PStr ''http://c'', image_url = PNone, source = PNone \<rparr>]"
  have a1: "xmltodict_parse ?w ''<rss>...</rss>'' = Inr ?tree"
    by (simp add: example_world_def)
  have a2: "subscript ?tree RSS_ROOT = Inr ?root" by (simp add: rss_keys)
  have a3: "subscript ?root RSS_CHANNEL = Inr ?channel" by (simp add: rss_keys)
  have a4: "subscript ?channel RSS_ITEMS = Inr (PList [?a, ?b, ?c])" by (simp add: rss_keys)
  have a5: "map (parse_item ?w) [?a, ?b, ?c] = map Inr ?cands"
    by (simp add: parse_item_def parse_image_def rss_keys example_world_def)
  from xml_parse_keeps_valid_items_in_order[OF a1 a2 a3 a4 a5, of "[]"] show ?thesis
    by (simp add: validate_correctness_def)
qed

text \<open>
  C3. A document of \<open>N\<close> items of which \<open>K\<close> fail validation should parse to the feed
  of the \<open>N - K\<close> valid items, with one diagnostic message for each rejected item and no
  item aborting the parse. The code does not when the extractor raises on an item: the
  exception leaves the loop and \<open>parse\<close>, the valid items already collected are lost
  and no diagnostic message is sent. An empty item element decodes to \<^verbatim>\<open>None\<close>, which
  has no \<^verbatim>\<open>get\<close>; an item with two \<^verbatim>\<open>media:content\<close> elements holds a list under that
  key, which has no \<^verbatim>\<open>get\<close> either. Both documents have a valid first item.
\<close>

theorem xml_parse_unextractable_item_aborts_parse:
  "RssXmlParser_parse
     (example_world
        (PDict [(''rss'', PDict [(''channel'', PDict [(''item'', PList [
           PDict [(''title'', PStr ''A''), (''link'', PStr ''http://a''),
                  (''pubDate'', PStr ''Mon, 01 Jan 2024 00:00:00 GMT'')],
           PNone])])])])
        RaisedOther)
     (RssXmlParser_init doc (Some (Collector [])))
     = (Inl AttributeError,
        Collector [''Parsing RSS Feed by elements'', ''Parsing items info''])
   \<and> RssXmlParser_parse
     (example_world
        (PDict [(''rss'', PDict [(''channel'', PDict [(''item'', PList [
           PDict [(''title'', PStr ''A''), (''link'', PStr ''http://a''),
                  (''pubDate'', PStr ''Mon, 01 Jan 2024 00:00:00 GMT'')],
           PDict [(''title'', PStr ''B''), (''link'', PStr ''http://b''),
                  (''pubDate'', PStr ''Tue, 02 Jan 2024 00:00:00 GMT''),
                  (''media:content'',
                     PList [PDict [(''@url'', PStr ''http://b/1.jpg'')],
                            PDict [(''@url'', PStr ''http://b/2.jpg'')]])]])])])])
        RaisedOther)
     (RssXmlParser_init doc (Some (Collector [])))
     = (Inl AttributeError,
        Collector [''Parsing RSS Feed by elements'', ''Parsing items info''])"
  by (simp add: RssXmlParser_parse_def parse_items_def parse_item_def parse_image_def
      rss_keys example_world_def validate_correctness_def)


section \<open>The URL parser\<close>



text \<open>The malformed URL of the specification's example.\<close>

lemma url_parse_invalid_url_example:
  "fst (RssUrlParser_parse (example_world PNone RaisedMissingSchema)
          (RssUrlParser_init ''not a url'' (Some MESSAGE_CONSUMER_NOOP)))
     = Inl (ParsingException ''Invalid source URL: not a url'')"
  by (simp add: RssUrlParser_parse_def fetch_def handler_invalid_url_def example_world_def)

lemma stamp_source_map:
  "stamp_source src items = map (\<lambda>it. it\<lparr>source := PStr src\<rparr>) items"
  by (induction items) simp_all

text \<open>
  C8. When the fetch succeeds (the consumer is there and the response has the status
  200), the URL parser runs the XML parser on the body with its own consumer. An error
  of the XML parser is the error of the URL parser; a feed of the XML parser is returned
  with as many items in the same order, each with the source set to the source string
  and with the title, description, publication date, link and image URL it had.
\<close>

theorem url_parse_stamps_source:
  assumes "add_message m (''Reaching out to '' @ src) = Inr m1"
    and "requests_get w src = Response 200 body"
  shows "(\<forall>e m2. RssXmlParser_parse w (RssXmlParser_init body (Some m1)) = (Inl e, m2) \<longrightarrow>
            RssUrlParser_parse w (RssUrlParser_init src (Some m)) = (Inl e, m2))
       \<and> (\<forall>feed m2. RssXmlParser_parse w (RssXmlParser_init body (Some m1)) = (Inr feed, m2) \<longrightarrow>
            (\<exists>items'.
               RssUrlParser_parse w (RssUrlParser_init src (Some m)) = (Inr (RssFeed items'), m2)
               \<and> length items' = length (rss_items feed)
               \<and> (\<forall>i < length items'.
                    source (items' ! i) = PStr src
                  \<and> title (items' ! i) = title (rss_items feed ! i)
                  \<and> description (items' ! i) = description (rss_items feed ! i)
                  \<and> publication_date (items' ! i) = publication_date (rss_items feed ! i)
                  \<and> link (items' ! i) = link (rss_items feed ! i)
                  \<and> image_url (items' ! i) = image_url (rss_items feed ! i))))"
  using assms
  by (auto simp: RssUrlParser_parse_def fetch_def stamp_source_map)

text \<open>The witness: a fetched feed of one item.\<close>

theorem url_parse_stamps_source_witness:
  "\<exists>items'. RssUrlParser_parse
       (example_world (PDict [(''rss'', PDict [(''channel'', PDict [(''item'',
           PList [PDict [(''title'', PStr ''T''), (''link'', PStr ''L''),
                         (''pubDate'', PStr ''Mon, 01 Jan 2024 00:00:00 GMT'')]])])])])
          (Response 200 ''<rss>...</rss>''))
       (RssUrlParser_init ''http://example.org/feed'' (Some (Collector [])))
     = (Inr (RssFeed items'),
        Collector [''Reaching out to http://example.org/feed'',
                   ''Parsing RSS Feed by elements'', ''Parsing items info'',
                   ''Parsing finished''])
   \<and> length items' = 1
   \<and> source (items' ! 0) = PStr ''http://example.org/feed''
   \<and> title (items' ! 0) = PStr ''T''
   \<and> link (items' ! 0) = PStr ''L''"
proof -
  let ?w = "example_world (PDict [(''rss'', PDict [(''channel'', PDict [(''item'',
           PList [PDict [(''title'', PStr ''T''), (''link'', PStr ''L''),
                         (''pubDate'', PStr ''Mon, 01 Jan 2024 00:00:00 GMT'')]])])])])
          (Response 200 ''<rss>...</rss>'')"
  let ?src = "''http://example.org/feed''"
  let ?m1 = "Collector [''Reaching out to http://example.org/feed'']"
  let ?m2 = "Collector [''Reaching out to http://example.org/feed'',
                   ''Parsing RSS Feed by elements'', ''Parsing items info'',
                   ''Parsing finished'']"
  let ?feed = "RssFeed [\<lparr> title = PStr ''T'', description = PNone,
      publication_date = Some (Datetime 0), link = PStr ''L'', image_url = PNone,
      source = PNone \<rparr>]"
  have a1: "add_message (Collector []) (''Reaching out to '' @ ?src) = Inr ?m1" by simp
  have a2: "requests_get ?w ?src = Response 200 ''<rss>...</rss>''"
    by (simp add: example_world_def)
  have x: "RssXmlParser_parse ?w (RssXmlParser_init ''<rss>...</rss>'' (Some ?m1))
      = (Inr ?feed, ?m2)"
    by (simp add: RssXmlParser_parse_def parse_items_def parse_item_def parse_image_def
        rss_keys example_world_def validate_correctness_def)
  from url_parse_stamps_source[OF a1 a2] x
  have "\<exists>items'.
      RssUrlParser_parse ?w (RssUrlParser_init ?src (Some (Collector [])))
        = (Inr (RssFeed items'), ?m2)
      \<and> length items' = length (rss_items ?feed)
      \<and> (\<forall>i < length items'.
             source (items' ! i) = PStr ?src
           \<and> title (items' ! i) = title (rss_items ?feed ! i)
           \<and> description (items' ! i) = description (rss_items ?feed ! i)
           \<and> publication_date (items' ! i) = publication_date (rss_items ?feed ! i)
           \<and> link (items' ! i) = link (rss_items ?feed ! i)
           \<and> image_url (items' ! i) = image_url (rss_items ?feed ! i))"
    by blast
  then show ?thesis by auto
qed

section \<open>The JSON parser\<close>

text \<open>
  C9. For a path that does not exist, the JSON parser returns the feed of no items and
  raises nothing. For a path that holds a text file it returns what the JSON mapper
  makes of the content, a feed or an error, as it is: neither the decoder nor
  \<open>sanitize_text\<close> nor \<open>to_date\<close> has a part in it, and no item is validated.
\<close>

theorem json_parse_missing_file_is_empty_feed:
  "(files w path = None \<longrightarrow>
      RssJsonParser_parse w (RssJsonParser_init path mc_arg) = Inr (RssFeed []))
   \<and> (\<forall>rss_json. files w path = Some (TextFile rss_json) \<longrightarrow>
      RssJsonParser_parse w (RssJsonParser_init path mc_arg) = from_json w rss_json)
   \<and> RssJsonParser_parse (w\<lparr>xmltodict_parse := x, sanitize_text := s, to_date := t\<rparr>)
        (RssJsonParser_init path mc_arg)
      = RssJsonParser_parse w (RssJsonParser_init path mc_arg)"
  by (auto simp: RssJsonParser_parse_def split: option.splits fs_node.splits)

text \<open>
  The witness: no file gives the empty feed, without a consumer; a snapshot whose item
  has an empty title, no date and no link is returned with that item.
\<close>

theorem json_parse_missing_file_is_empty_feed_witness:
  "RssJsonParser_parse (example_world PNone RaisedOther) (RssJsonParser_init ''news.json'' None)
     = Inr (RssFeed [])
   \<and> RssJsonParser_parse
       ((example_world PNone RaisedOther)
          \<lparr> files := [''news.json'' \<mapsto> TextFile ''{}''],
            from_json := (\<lambda>text. Inr (RssFeed [\<lparr> title = PStr '''', description = PNone,
               publication_date = None, link = PNone, image_url = PNone,
               source = PNone \<rparr>])) \<rparr>)
       (RssJsonParser_init ''news.json'' None)
     = Inr (RssFeed [\<lparr> title = PStr '''', description = PNone,
               publication_date = None, link = PNone, image_url = PNone, source = PNone \<rparr>])"
  using json_parse_missing_file_is_empty_feed[of "example_world PNone RaisedOther"
      "''news.json''" None]
    json_parse_missing_file_is_empty_feed[of "(example_world PNone RaisedOther)
          \<lparr> files := [''news.json'' \<mapsto> TextFile ''{}''],
            from_json := (\<lambda>text. Inr (RssFeed [\<lparr> title = PStr '''', description = PNone,
               publication_date = None, link = PNone, image_url = PNone,
               source = PNone \<rparr>])) \<rparr>" "''news.json''" None]
  by (simp add: example_world_def)

text \<open>A path that is a directory exists, and opening it raises.\<close>

lemma json_parse_directory_raises:
  "files w path = Some Directory \<Longrightarrow>
   RssJsonParser_parse w (RssJsonParser_init path mc_arg) = Inl OSError"
  by (simp add: RssJsonParser_parse_def)


section \<open>The consumer is a side channel\<close>

text \<open>
  With any consumer in place of \<^verbatim>\<open>None\<close>, what the XML parser returns or raises does not
  depend on the consumer: every \<^verbatim>\<open>add_message\<close> returns, and the result is a function of
  the document alone.
\<close>

lemma add_message_present:
  "c \<noteq> PyNone \<Longrightarrow> \<exists>m'. add_message c t = Inr m' \<and> m' \<noteq> PyNone"
  by (cases c) auto

lemma parse_items_loop_fst_independent:
  "m \<noteq> PyNone \<Longrightarrow>
   fst (parse_items_loop w raws res m) = fst (parse_items_loop w raws res MESSAGE_CONSUMER_NOOP)"
proof (induction raws arbitrary: res m)
  case Nil
  then show ?case by simp
next
  case (Cons raw raws)
  show ?case
  proof (cases "parse_item w raw")
    case (Inl e)
    then show ?thesis by simp
  next
    case (Inr item)
    show ?thesis
    proof (cases "validate_correctness item")
      case True
      then show ?thesis using Cons.IH[OF Cons.prems] Inr by simp
    next
      case False
      obtain m' where m': "add_message m skipped_message = Inr m'" "m' \<noteq> PyNone"
        using add_message_present[OF Cons.prems] by blast
      then show ?thesis using Cons.IH[OF m'(2)] Inr False by simp
    qed
  qed
qed

lemma parse_items_loop_consumer_present:
  "m \<noteq> PyNone \<Longrightarrow> snd (parse_items_loop w raws res m) \<noteq> PyNone"
proof (induction raws arbitrary: res m)
  case Nil
  then show ?case by simp
next
  case (Cons raw raws)
  show ?case
  proof (cases "parse_item w raw")
    case (Inl e)
    then show ?thesis using Cons.prems by simp
  next
    case (Inr item)
    show ?thesis
    proof (cases "validate_correctness item")
      case True
      then show ?thesis using Cons.IH[OF Cons.prems] Inr by simp
    next
      case False
      obtain m' where m': "add_message m skipped_message = Inr m'" "m' \<noteq> PyNone"
        using add_message_present[OF Cons.prems] by blast
      then show ?thesis using Cons.IH[OF m'(2)] Inr False by simp
    qed
  qed
qed

lemma parse_items_fst_independent:
  "m \<noteq> PyNone \<Longrightarrow>
   fst (parse_items w d m) = fst (parse_items w d MESSAGE_CONSUMER_NOOP)"
proof -
  assume m: "m \<noteq> PyNone"
  show ?thesis
  proof (cases "subscript d RSS_CHANNEL")
    case (Inl e)
    then show ?thesis by (simp add: parse_items_def)
  next
    case channel: (Inr channel)
    show ?thesis
    proof (cases "subscript channel RSS_ITEMS")
      case (Inl e)
      then show ?thesis by (simp add: parse_items_def channel)
    next
      case raw: (Inr rss_items_raw)
      show ?thesis
      proof (cases "py_iter rss_items_raw")
        case (Inl e)
        then show ?thesis by (simp add: parse_items_def channel raw)
      next
        case (Inr raws)
        then show ?thesis
          using parse_items_loop_fst_independent[OF m, of w raws "[]"]
          by (simp add: parse_items_def channel raw)
      qed
    qed
  qed
qed

lemma parse_items_consumer_present:
  "m \<noteq> PyNone \<Longrightarrow> snd (parse_items w d m) \<noteq> PyNone"
proof -
  assume m: "m \<noteq> PyNone"
  show ?thesis
  proof (cases "subscript d RSS_CHANNEL")
    case (Inl e)
    then show ?thesis using m by (simp add: parse_items_def)
  next
    case channel: (Inr channel)
    show ?thesis
    proof (cases "subscript channel RSS_ITEMS")
      case (Inl e)
      then show ?thesis using m by (simp add: parse_items_def channel)
    next
      case raw: (Inr rss_items_raw)
      show ?thesis
      proof (cases "py_iter rss_items_raw")
        case (Inl e)
        then show ?thesis using m by (simp add: parse_items_def channel raw)
      next
        case (Inr raws)
        then show ?thesis
          using parse_items_loop_consumer_present[OF m, of w raws "[]"]
          by (simp add: parse_items_def channel raw)
      qed
    qed
  qed
qed

text \<open>The part of parse after the root lookup.\<close>

lemma xml_parse_tail_independent:
  assumes "m2 \<noteq> PyNone"
  shows "fst (case parse_items w d m2 of
        (Inl e, m3) \<Rightarrow> (Inl e, m3)
      | (Inr rss_items_v, m3) \<Rightarrow>
     (case add_message m3 ''Parsing finished'' of
        Inl e \<Rightarrow> (Inl e, m3)
      | Inr m4 \<Rightarrow> (Inr (RssFeed rss_items_v), m4)))
     = (case fst (parse_items w d MESSAGE_CONSUMER_NOOP) of
          Inl e \<Rightarrow> Inl e | Inr rss_items_v \<Rightarrow> Inr (RssFeed rss_items_v))"
proof -
  obtain r m3 where p: "parse_items w d m2 = (r, m3)" by (cases "parse_items w d m2")
  have r: "fst (parse_items w d MESSAGE_CONSUMER_NOOP) = r"
    using parse_items_fst_independent[OF assms, of w d] p by simp
  have "m3 \<noteq> PyNone" using parse_items_consumer_present[OF assms, of w d] p by simp
  then obtain m4 where m4: "add_message m3 ''Parsing finished'' = Inr m4"
    using add_message_present by blast
  show ?thesis by (cases r) (simp_all add: p r m4)
qed

lemma xml_parse_result_with_consumer:
  assumes "m \<noteq> PyNone"
  shows "fst (RssXmlParser_parse w (RssXmlParser_init doc (Some m))) =
     (case (case xmltodict_parse w doc of
              Inl e \<Rightarrow> Inl e
            | Inr tree \<Rightarrow> subscript tree RSS_ROOT) of
        Inl e \<Rightarrow>
          (if caught_ExpatError_KeyError e
           then Inl (ParsingException invalid_feed_message)
           else Inl e)
      | Inr rss_feed_dict \<Rightarrow>
          (case fst (parse_items w rss_feed_dict MESSAGE_CONSUMER_NOOP) of
             Inl e \<Rightarrow> Inl e | Inr rss_items_v \<Rightarrow> Inr (RssFeed rss_items_v)))"
proof -
  obtain m1 where m1: "add_message m ''Parsing RSS Feed by elements'' = Inr m1" "m1 \<noteq> PyNone"
    using add_message_present[OF assms] by blast
  obtain m2 where m2: "add_message m1 ''Parsing items info'' = Inr m2" "m2 \<noteq> PyNone"
    using add_message_present[OF m1(2)] by blast
  show ?thesis
  proof (cases "case xmltodict_parse w doc of Inl e \<Rightarrow> Inl e | Inr tree \<Rightarrow> subscript tree RSS_ROOT")
    case (Inl e)
    then show ?thesis by (simp add: RssXmlParser_parse_def m1)
  next
    case (Inr rss_feed_dict)
    then show ?thesis
      using xml_parse_tail_independent[OF m2(2), of w rss_feed_dict]
      by (simp add: RssXmlParser_parse_def m1 m2)
  qed
qed

lemma xml_parse_consumer_side_channel:
  "m \<noteq> PyNone \<Longrightarrow> m' \<noteq> PyNone \<Longrightarrow>
   fst (RssXmlParser_parse w (RssXmlParser_init doc (Some m)))
     = fst (RssXmlParser_parse w (RssXmlParser_init doc (Some m')))"
  using xml_parse_result_with_consumer[of m w doc] xml_parse_result_with_consumer[of m' w doc]
  by (rule trans[OF _ sym])

end
